theory Spec2Isabelle
  imports Main
begin

section \<open>The flow-puzzle board of \<open>board/board.go\<close>\<close>

text \<open>
  The package keeps a grid of integers and a list of flows (paths of points). A Go
  \<open>int\<close> is modelled as an HOL \<open>int\<close>; the one place where the source computes with
  values that are not bounded by the size of a slice is \<open>AreAjacent\<close>, and there the
  64-bit two's-complement wrap-around is written out (\<open>wrap64\<close>). A Go run-time panic is
  a value of type \<open>panic\<close>, a returned \<open>error\<close> is a value of type \<open>error\<close>. Printing
  (\<open>fmt.Println\<close>, \<open>fmt.Printf\<close>) and the mutex are left out: the functions below are
  the sequential behaviour of one call.
\<close>

subsection \<open>Data\<close>

type_synonym Point = "int \<times> int"
type_synonym Color = "Point list"

record Board =
  grid :: "int list list"
  flows :: "Color list"

datatype panic =
    IndexOutOfRange
  | SliceBoundsOutOfRange
  | MakeSliceLenOutOfRange

datatype error =
    ReadError
  | SizeFormatError
  | PointsFormatError
  | ColorIndexOutOfRange
  | XOutOfRange
  | YOutOfRange
  | CellOccupied
  | NotAjacent Color

text \<open>\<open>board := &Board{}\<close>: both slices are nil.\<close>

definition empty_Board :: Board where
  "empty_Board = \<lparr>grid = [], flows = []\<rparr>"

subsection \<open>The library functions the parser calls\<close>

text \<open>
  \<open>bufio.Reader.ReadString('\n')\<close> on a reader whose remaining content is the given
  string: the line up to and including the first newline, or everything that is left
  together with \<open>io.EOF\<close> (the flag) when there is no newline. The third component is
  what remains to be read.
\<close>

fun ReadString :: "string \<Rightarrow> string \<times> bool \<times> string" where
  "ReadString [] = ([], True, [])"
| "ReadString (c # cs) =
     (if c = CHR 0x0A then ([c], False, cs)
      else (case ReadString cs of (l, e, r) \<Rightarrow> (c # l, e, r)))"

text \<open>\<open>strings.Trim(s, cutset)\<close>: all leading and trailing bytes of the cutset removed.\<close>

definition Trim :: "string \<Rightarrow> string \<Rightarrow> string" where
  "Trim s cutset =
     rev (dropWhile (\<lambda>c. c \<in> set cutset) (rev (dropWhile (\<lambda>c. c \<in> set cutset) s)))"

text \<open>
  \<open>strings.Split(s, sep)\<close> for a separator of one byte (the source splits on a space
  and on a comma): the pieces between the separators, one more than there are
  separators.
\<close>

fun Split :: "string \<Rightarrow> char \<Rightarrow> string list" where
  "Split [] sep = [[]]"
| "Split (c # cs) sep =
     (if c = sep then [] # Split cs sep
      else (case Split cs sep of [] \<Rightarrow> [[c]] | w # ws \<Rightarrow> (c # w) # ws))"

text \<open>
  \<open>strconv.Atoi\<close>: an optional sign, then one or more decimal digits, with a value
  that fits a 64-bit \<open>int\<close>; anything else is an error (\<open>None\<close>).
\<close>

definition is_digit :: "char \<Rightarrow> bool" where
  "is_digit c = (48 \<le> (of_char c :: nat) \<and> (of_char c :: nat) \<le> 57)"

definition digits_value :: "string \<Rightarrow> int" where
  "digits_value ds = foldl (\<lambda>n c. n * 10 + (int (of_char c) - 48)) 0 ds"

definition Atoi :: "string \<Rightarrow> int option" where
  "Atoi s =
     (let neg = (case s of [] \<Rightarrow> False | c # _ \<Rightarrow> c = CHR ''-'');
          ds = (case s of [] \<Rightarrow> [] | c # cs \<Rightarrow> if c = CHR ''-'' \<or> c = CHR ''+'' then cs else s)
      in if ds = [] then None
         else if list_all is_digit ds then
           (let n = (if neg then - digits_value ds else digits_value ds)
            in if n < - 9223372036854775808 then None
               else if 9223372036854775807 < n then None
               else Some n)
         else None)"

subsection \<open>Reading the level\<close>

text \<open>\<open>getSize\<close>, lines 80 to 97.\<close>

definition getSize :: "string \<Rightarrow> error + (int \<times> int)" where
  "getSize s =
     (let split = Split (Trim s [CHR 0x0A]) CHR '',''
      in if length split \<noteq> 2 then Inl SizeFormatError
         else (case Atoi (split ! 0) of
                 None \<Rightarrow> Inl SizeFormatError
               | Some lines \<Rightarrow>
                   (case Atoi (split ! 1) of
                      None \<Rightarrow> Inl SizeFormatError
                    | Some cols \<Rightarrow> Inr (lines, cols))))"

text \<open>
  The loop over the two point tokens of \<open>insertPoints\<close>, lines 113 to 132, and what
  follows it. The bounds test is the source's: \<open>i > len(board.grid)\<close> and
  \<open>j > len(board.grid[0])\<close>; \<open>board.grid[0]\<close> panics on a grid without rows, and the
  store \<open>board.grid[i][j] = index\<close> panics when the row or the cell does not exist.
  The grid is written as soon as a point has passed the test, before the next token is
  looked at.
\<close>

fun insertPoints_loop ::
  "Board \<Rightarrow> int \<Rightarrow> string list \<Rightarrow> Color \<Rightarrow> panic + (Board \<times> error option)" where
  "insertPoints_loop board index [] c =
     Inr (board\<lparr>flows := flows board @ [c]\<rparr>, None)"
| "insertPoints_loop board index (point # points) c =
     (let coords = Split point CHR '',''
      in if length coords \<noteq> 2 then Inr (board, Some PointsFormatError)
         else (case Atoi (coords ! 0) of
            None \<Rightarrow> Inr (board, Some PointsFormatError)
          | Some i \<Rightarrow>
         (case Atoi (coords ! 1) of
            None \<Rightarrow> Inr (board, Some PointsFormatError)
          | Some j \<Rightarrow>
              if i < 0 then Inr (board, Some PointsFormatError)
              else if int (length (grid board)) < i then Inr (board, Some PointsFormatError)
              else if j < 0 then Inr (board, Some PointsFormatError)
              else if grid board = [] then Inl IndexOutOfRange
              else if int (length (grid board ! 0)) < j then Inr (board, Some PointsFormatError)
              else if length (grid board) \<le> nat i then Inl IndexOutOfRange
              else if length (grid board ! nat i) \<le> nat j then Inl IndexOutOfRange
              else insertPoints_loop
                     (board\<lparr>grid := (grid board)[nat i := (grid board ! nat i)[nat j := index]]\<rparr>)
                     index points (c @ [(i, j)]))))"

text \<open>\<open>insertPoints\<close>, lines 100 to 135.\<close>

definition insertPoints :: "Board \<Rightarrow> string \<Rightarrow> int \<Rightarrow> panic + (Board \<times> error option)" where
  "insertPoints board line index =
     (if line = [] then Inr (board, None)
      else (let points = Split (Trim line [CHR 0x0A]) CHR '' ''
            in if length points \<noteq> 2 then Inr (board, Some PointsFormatError)
               else insertPoints_loop board index points []))"

text \<open>
  The allocation loop of \<open>New\<close>, lines 60 to 62: \<open>i\<close> runs below \<open>cols\<close>, and
  \<open>board.grid[i]\<close> panics when the grid has no row \<open>i\<close>.
\<close>

fun New_rows :: "int list list \<Rightarrow> int \<Rightarrow> nat list \<Rightarrow> panic + int list list" where
  "New_rows g cols [] = Inr g"
| "New_rows g cols (i # is) =
     (if i < length g then New_rows (g[i := replicate (nat cols) 0]) cols is
      else Inl IndexOutOfRange)"

text \<open>
  The reading loop of \<open>New\<close>, lines 65 to 72. \<open>line\<close> and \<open>eof\<close> are the result of
  the last read (\<open>err != nil\<close> is \<open>eof\<close>), \<open>rest\<close> is what the reader still holds. The
  loop ends with \<open>err = readErr\<close>, which is the second component of the result.
\<close>

function New_loop ::
  "Board \<Rightarrow> string \<Rightarrow> bool \<Rightarrow> int \<Rightarrow> string \<Rightarrow> panic + (Board \<times> error option)" where
  "New_loop board line eof index rest =
     (case insertPoints board line index of
        Inl p \<Rightarrow> Inl p
      | Inr (board', readErr) \<Rightarrow>
          if eof then Inr (board', readErr)
          else if readErr \<noteq> None then Inr (board', readErr)
          else (case ReadString rest of
                  (line', eof', rest') \<Rightarrow> New_loop board' line' eof' (index + 1) rest'))"
  by pat_completeness auto
termination
proof (relation "measure (\<lambda>(board, line, eof, index, rest). length rest + (if eof then 0 else 1))")
  have shorter: "length r + (if e then 0 else 1) \<le> length s" if "(l, e, r) = ReadString s"
    for s l e r
    using that by (induction s arbitrary: l e r) (auto split: if_splits prod.splits)
  fix board :: Board and line :: string and eof :: bool and index :: int and rest :: string
    and x2 :: "Board \<times> error option" and board' :: Board and readErr :: "error option"
    and line' :: string and y :: "bool \<times> string" and eof' :: bool and rest' :: string
  assume "\<not> eof" and "(line', y) = ReadString rest" and "(eof', rest') = y"
  then have "length rest' + (if eof' then 0 else 1) \<le> length rest"
    using shorter [of line' eof' rest' rest] by simp
  with \<open>\<not> eof\<close>
  show "((board', line', eof', index + 1, rest'), (board, line, eof, index, rest))
        \<in> measure (\<lambda>(board, line, eof, index, rest). length rest + (if eof then 0 else 1))"
    by simp
qed simp

text \<open>
  \<open>New\<close>, lines 43 to 78. \<open>make([][]int, lines)\<close> panics on a negative length and
  gives \<open>lines\<close> nil rows otherwise; the allocator's limit on very large lengths (a
  panic or an exhausted memory in the code) is not modelled, here and for
  \<open>make([]int, cols)\<close>. What the loop leaves in \<open>err\<close> is printed, and the function
  returns \<open>board, nil\<close>.
\<close>

definition New :: "string \<Rightarrow> panic + (Board \<times> error option)" where
  "New txt =
     (case ReadString txt of
        (sizeString, eof, rest) \<Rightarrow>
          if eof then Inr (empty_Board, Some ReadError)
          else (case getSize sizeString of
                  Inl e \<Rightarrow> Inr (empty_Board, Some e)
                | Inr (lines, cols) \<Rightarrow>
                    if lines < 0 then Inl MakeSliceLenOutOfRange
                    else (case New_rows (replicate (nat lines) []) cols [0 ..< nat cols] of
                            Inl p \<Rightarrow> Inl p
                          | Inr g \<Rightarrow>
                              (case New_loop (empty_Board\<lparr>grid := g\<rparr>) [] False 0 rest of
                                 Inl p \<Rightarrow> Inl p
                               | Inr (board, err) \<Rightarrow> Inr (board, None)))))"

subsection \<open>Adjacency\<close>

text \<open>
  The value of a 64-bit \<open>int\<close> after an operation whose exact result is \<open>x\<close>.
\<close>

definition wrap64 :: "int \<Rightarrow> int" where
  "wrap64 x = (x + 9223372036854775808) mod 18446744073709551616 - 9223372036854775808"

text \<open>\<open>AreAjacent\<close>, lines 219 to 227.\<close>

definition AreAjacent :: "Point \<Rightarrow> Point \<Rightarrow> bool" where
  "AreAjacent point nextPoint =
     (let dx = wrap64 (fst point - fst nextPoint);
          dy = wrap64 (snd point - snd nextPoint)
      in if 1 < wrap64 (dx * dx) \<or> 1 < wrap64 (dy * dy)
            \<or> wrap64 (wrap64 (dx * dx) + wrap64 (dy * dy)) \<noteq> 1
         then False else True)"

text \<open>
  \<open>AreAllAjacent\<close>, lines 229 to 240: the loop leaves at the last element, and
  before that compares each element with the next one.
\<close>

fun AreAllAjacent :: "Color \<Rightarrow> bool" where
  "AreAllAjacent [] = True"
| "AreAllAjacent [point] = True"
| "AreAllAjacent (point # nextPoint # c) =
     (if \<not> AreAjacent point nextPoint then False else AreAllAjacent (nextPoint # c))"

subsection \<open>The board's operations\<close>

text \<open>\<open>Lines\<close> is \<open>len(b.grid)\<close>; \<open>Cols\<close> is \<open>len(b.grid[0])\<close>, which panics on a grid
  without rows.\<close>

definition Lines :: "Board \<Rightarrow> int" where
  "Lines b = int (length (grid b))"

definition Cols :: "Board \<Rightarrow> panic + int" where
  "Cols b = (if grid b = [] then Inl IndexOutOfRange else Inr (int (length (grid b ! 0))))"

text \<open>The read \<open>g[line][col]\<close> of a slice of slices, with Go's index checks.\<close>

definition cell :: "int list list \<Rightarrow> int \<Rightarrow> int \<Rightarrow> panic + int" where
  "cell g line col =
     (if line < 0 then Inl IndexOutOfRange
      else if int (length g) \<le> line then Inl IndexOutOfRange
      else if col < 0 then Inl IndexOutOfRange
      else if int (length (g ! nat line)) \<le> col then Inl IndexOutOfRange
      else Inr (g ! nat line ! nat col))"

text \<open>\<open>Get\<close>, lines 304 to 308.\<close>

definition Get :: "Board \<Rightarrow> int \<Rightarrow> int \<Rightarrow> panic + int" where
  "Get b line col = cell (grid b) line col"

text \<open>
  \<open>ColorCell\<close>, lines 166 to 196. \<open>c\<close> is a copy of the flow with room for one more
  point; \<open>c[:len(c)-1]\<close> and \<open>c[len(c)-1]\<close> panic on an empty flow. \<open>append\<close> writes
  into the copy, never into the board, and \<open>updatedC\<close> is the flow with the new point
  before its last point. The adjacency test looks at \<open>updatedC[:len(c)]\<close>, the first
  \<open>len(c)\<close> points of \<open>updatedC\<close>.
\<close>

definition ColorCell :: "Board \<Rightarrow> int \<Rightarrow> int \<Rightarrow> int \<Rightarrow> panic + (Board \<times> error option)" where
  "ColorCell b colorIndex line col =
     (if colorIndex < 0 \<or> int (length (flows b)) \<le> colorIndex
        then Inr (b, Some ColorIndexOutOfRange)
      else if line < 0 \<or> Lines b \<le> line then Inr (b, Some XOutOfRange)
      else (case Cols b of
        Inl p \<Rightarrow> Inl p
      | Inr cols \<Rightarrow>
          if col < 0 \<or> cols \<le> col then Inr (b, Some YOutOfRange)
          else (case cell (grid b) line col of
            Inl p \<Rightarrow> Inl p
          | Inr v \<Rightarrow>
              if v \<noteq> 0 then Inr (b, Some CellOccupied)
              else (let c = flows b ! nat colorIndex
                    in if c = [] then Inl SliceBoundsOutOfRange
                       else (let updatedC = butlast c @ [(line, col), last c]
                             in if \<not> AreAllAjacent (take (length c) updatedC)
                                  then Inr (b, Some (NotAjacent (take (length c) updatedC)))
                                else Inr (b\<lparr>grid := (grid b)[nat line :=
                                                       (grid b ! nat line)[nat col := colorIndex + 1]],
                                            flows := (flows b)[nat colorIndex := updatedC]\<rparr>,
                                          None))))))"

text \<open>
  \<open>Solved\<close>, lines 198 to 217: the inner loop over the columns of one row, the outer
  loop over the rows, and the loop over the flows. \<open>b.grid[i][j]\<close> panics when row
  \<open>i\<close> has no cell \<open>j\<close>.
\<close>

fun Solved_row :: "int list list \<Rightarrow> nat \<Rightarrow> nat list \<Rightarrow> panic + bool" where
  "Solved_row g i [] = Inr True"
| "Solved_row g i (j # js) =
     (if length (g ! i) \<le> j then Inl IndexOutOfRange
      else if g ! i ! j = 0 then Inr False
      else Solved_row g i js)"

fun Solved_grid :: "int list list \<Rightarrow> nat list \<Rightarrow> panic + bool" where
  "Solved_grid g [] = Inr True"
| "Solved_grid g (i # is) =
     (case Solved_row g i [0 ..< length (g ! 0)] of
        Inl p \<Rightarrow> Inl p
      | Inr full \<Rightarrow> if full then Solved_grid g is else Inr False)"

fun Solved_flows :: "Color list \<Rightarrow> bool" where
  "Solved_flows [] = True"
| "Solved_flows (c # cs) = (if \<not> AreAllAjacent c then False else Solved_flows cs)"

definition Solved :: "Board \<Rightarrow> panic + bool" where
  "Solved b =
     (case Solved_grid (grid b) [0 ..< length (grid b)] of
        Inl p \<Rightarrow> Inl p
      | Inr full \<Rightarrow> if full then Inr (Solved_flows (flows b)) else Inr False)"

subsection \<open>Boards of the data model, and boards the package can build\<close>

text \<open>
  The data model's grid is a rectangular matrix: every row is as long as the first one.
  \<open>Cols\<close> reads the length of the first row only.
\<close>

definition rectangular :: "int list list \<Rightarrow> bool" where
  "rectangular g = list_all (\<lambda>row. length row = length (g ! 0)) g"

text \<open>
  The boards a caller can hold: what \<open>New\<close> returns (with or without an error), and what
  \<open>ColorCell\<close> leaves of such a board.
\<close>

inductive built :: "Board \<Rightarrow> bool" where
  built_New: "New txt = Inr (b, e) \<Longrightarrow> built b"
| built_ColorCell: "built b \<Longrightarrow> ColorCell b k r c = Inr (b', e) \<Longrightarrow> built b'"


section \<open>Properties\<close>

declare New_loop.simps [simp del]

subsection \<open>Helper lemmas\<close>

lemma take_splice:
  "c \<noteq> [] \<Longrightarrow> take (length c) (butlast c @ [p, last c]) = butlast c @ [p]"
  by (cases c rule: rev_cases) auto

lemma Solved_row_full:
  "\<forall>j \<in> set js. j < length (g ! i) \<Longrightarrow> Solved_row g i js = Inr (\<forall>j \<in> set js. g ! i ! j \<noteq> 0)"
  by (induction js) auto

lemma Solved_row_all:
  "Solved_row g i [0 ..< length (g ! i)] = Inr (\<forall>v \<in> set (g ! i). v \<noteq> 0)"
proof -
  have "Solved_row g i [0 ..< length (g ! i)]
      = Inr (\<forall>j \<in> set [0 ..< length (g ! i)]. g ! i ! j \<noteq> 0)"
    by (rule Solved_row_full) simp
  also have "(\<forall>j \<in> set [0 ..< length (g ! i)]. g ! i ! j \<noteq> 0) = (\<forall>v \<in> set (g ! i). v \<noteq> 0)"
    by (auto simp: in_set_conv_nth)
  finally show ?thesis .
qed

lemma Solved_grid_full:
  "\<forall>i \<in> set is. length (g ! i) = length (g ! 0) \<Longrightarrow>
     Solved_grid g is = Inr (\<forall>i \<in> set is. \<forall>v \<in> set (g ! i). v \<noteq> 0)"
proof (induction "is")
  case Nil
  then show ?case by simp
next
  case (Cons i "is")
  have len: "length (g ! 0) = length (g ! i)"
    using Cons.prems by simp
  have row: "Solved_row g i [0 ..< length (g ! 0)] = Inr (\<forall>v \<in> set (g ! i). v \<noteq> 0)"
    unfolding len by (rule Solved_row_all)
  have rest: "Solved_grid g is = Inr (\<forall>i \<in> set is. \<forall>v \<in> set (g ! i). v \<noteq> 0)"
    using Cons.IH Cons.prems by simp
  show ?case
    unfolding Solved_grid.simps row rest by auto
qed

lemma Solved_flows_all: "Solved_flows cs = (\<forall>c \<in> set cs. AreAllAjacent c)"
  by (induction cs) auto

lemma insertPoints_loop_Cons_cases:
  assumes "insertPoints_loop board index (point # points) c = Inr (b', e)"
  obtains (err) "b' = board" and "e = Some PointsFormatError"
  | (step) i j where
      "insertPoints_loop
         (board\<lparr>grid := (grid board)[nat i := (grid board ! nat i)[nat j := index]]\<rparr>)
         index points (c @ [(i, j)]) = Inr (b', e)"
proof -
  let ?coords = "Split point CHR '',''"
  show thesis
  proof (cases "length ?coords = 2")
    case False
    with assms have "b' = board \<and> e = Some PointsFormatError"
      by (simp add: Let_def)
    then show thesis using err by blast
  next
    case len: True
    show thesis
    proof (cases "Atoi (?coords ! 0)")
      case None
      with assms len have "b' = board \<and> e = Some PointsFormatError"
        by (simp add: Let_def)
      then show thesis using err by blast
    next
      case (Some i)
      note i = this
      show thesis
      proof (cases "Atoi (?coords ! 1)")
        case None
        with assms len i have "b' = board \<and> e = Some PointsFormatError"
          by (simp add: Let_def)
        then show thesis using err by blast
      next
        case (Some j)
        note j = this
        have body: "insertPoints_loop board index (point # points) c =
          (if i < 0 then Inr (board, Some PointsFormatError)
              else if int (length (grid board)) < i then Inr (board, Some PointsFormatError)
              else if j < 0 then Inr (board, Some PointsFormatError)
              else if grid board = [] then Inl IndexOutOfRange
              else if int (length (grid board ! 0)) < j then Inr (board, Some PointsFormatError)
              else if length (grid board) \<le> nat i then Inl IndexOutOfRange
              else if length (grid board ! nat i) \<le> nat j then Inl IndexOutOfRange
              else insertPoints_loop
                     (board\<lparr>grid := (grid board)[nat i := (grid board ! nat i)[nat j := index]]\<rparr>)
                     index points (c @ [(i, j)]))"
          using len i j by (simp add: Let_def)
        show thesis
        proof (cases "insertPoints_loop
                     (board\<lparr>grid := (grid board)[nat i := (grid board ! nat i)[nat j := index]]\<rparr>)
                     index points (c @ [(i, j)]) = Inr (b', e)")
          case True
          then show thesis by (rule step)
        next
          case False
          with assms [unfolded body] have "b' = board \<and> e = Some PointsFormatError"
            by (simp split: if_splits)
          then show thesis using err by blast
        qed
      qed
    qed
  qed
qed


lemma insertPoints_loop_flows:
  "insertPoints_loop b idx ps c = Inr (b', e) \<Longrightarrow> f \<in> set (flows b') \<Longrightarrow>
     f \<in> set (flows b) \<or> length f = length c + length ps"
proof (induction ps arbitrary: b c)
  case Nil
  then show ?case by auto
next
  case (Cons point points)
  from Cons.prems(1) show ?case
  proof (cases rule: insertPoints_loop_Cons_cases)
    case err
    with Cons.prems(2) show ?thesis by simp
  next
    case (step i j)
    from Cons.IH [OF step Cons.prems(2)] show ?thesis by simp
  qed
qed

lemma insertPoints_flows:
  assumes "insertPoints b line idx = Inr (b', e)" and "\<forall>f \<in> set (flows b). 2 \<le> length f"
  shows "\<forall>f \<in> set (flows b'). 2 \<le> length f"
proof (cases "line \<noteq> [] \<and> length (Split (Trim line [CHR 0x0A]) CHR '' '') = 2")
  case True
  with assms(1)
  have run: "insertPoints_loop b idx (Split (Trim line [CHR 0x0A]) CHR '' '') [] = Inr (b', e)"
    by (simp add: insertPoints_def Let_def)
  show ?thesis
  proof
    fix f assume "f \<in> set (flows b')"
    from insertPoints_loop_flows [OF run this] True assms(2) show "2 \<le> length f"
      by auto
  qed
next
  case False
  with assms(1) have "b' = b"
    by (auto simp: insertPoints_def Let_def split: if_splits)
  with assms(2) show ?thesis by simp
qed

lemma New_loop_flows:
  "New_loop b line eof idx rest = Inr (b', e) \<Longrightarrow>
     (\<forall>f \<in> set (flows b). 2 \<le> length f) \<Longrightarrow> (\<forall>f \<in> set (flows b'). 2 \<le> length f)"
proof (induction b line eof idx rest rule: New_loop.induct)
  case (1 board line eof index rest)
  show ?case
  proof (cases "insertPoints board line index")
    case (Inl p)
    with "1.prems"(1) show ?thesis by (simp add: New_loop.simps [of board])
  next
    case (Inr x)
    obtain b1 readErr where x: "x = (b1, readErr)" by (cases x)
    have ip: "insertPoints board line index = Inr (b1, readErr)" using Inr x by simp
    have ok1: "\<forall>f \<in> set (flows b1). 2 \<le> length f"
      using ip "1.prems"(2) by (rule insertPoints_flows)
    show ?thesis
    proof (cases "eof \<or> readErr \<noteq> None")
      case True
      with "1.prems"(1) ip have "b' = b1"
        by (auto simp: New_loop.simps [of board] split: if_splits)
      with ok1 show ?thesis by simp
    next
      case False
      obtain l' e' r' where rs: "ReadString rest = (l', e', r')" by (cases "ReadString rest")
      from False "1.prems"(1) ip rs have run: "New_loop b1 l' e' (index + 1) r' = Inr (b', e)"
        by (simp add: New_loop.simps [of board])
      have ne: "\<not> eof" "\<not> readErr \<noteq> None" using False by simp_all
      show ?thesis
        by (rule "1.IH" [OF Inr x [symmetric] ne rs [symmetric] refl run ok1])
    qed
  qed
qed


lemma New_cases:
  assumes "New txt = Inr (b, e)"
  obtains (header) "b = empty_Board"
  | (loop) g rest err where "New_loop (empty_Board\<lparr>grid := g\<rparr>) [] False 0 rest = Inr (b, err)"
proof -
  obtain s eof rest where rs: "ReadString txt = (s, eof, rest)" by (cases "ReadString txt")
  show thesis
  proof (cases "eof")
    case True
    with assms rs have "b = empty_Board" by (simp add: New_def)
    then show thesis by (rule header)
  next
    case neof: False
    show thesis
    proof (cases "getSize s")
      case (Inl err)
      with assms rs neof have "b = empty_Board" by (simp add: New_def)
      then show thesis by (rule header)
    next
      case (Inr lc)
      obtain ls cs where lc: "lc = (ls, cs)" by (cases lc)
      show thesis
      proof (cases "New_rows (replicate (nat ls) []) cs [0 ..< nat cs]")
        case (Inl p)
        with assms rs neof Inr lc have False by (simp add: New_def split: if_splits)
        then show thesis ..
      next
        case g: (Inr g)
        show thesis
        proof (cases "New_loop (empty_Board\<lparr>grid := g\<rparr>) [] False 0 rest")
          case (Inl p)
          with assms rs neof Inr lc g have False by (simp add: New_def split: if_splits)
          then show thesis ..
        next
          case r: (Inr r)
          obtain b1 err where r1: "r = (b1, err)" by (cases r)
          with assms rs neof Inr lc g r have "b1 = b" by (simp add: New_def split: if_splits)
          with r r1 show thesis using loop by blast
        qed
      qed
    qed
  qed
qed

lemma New_flows:
  assumes "New txt = Inr (b, e)"
  shows "\<forall>f \<in> set (flows b). 2 \<le> length f"
  using assms
proof (cases rule: New_cases)
  case header
  then show ?thesis by (simp add: empty_Board_def)
next
  case (loop g rest err)
  from New_loop_flows [OF loop] show ?thesis by (simp add: empty_Board_def)
qed

lemma ColorCell_flows:
  assumes "ColorCell b k r c = Inr (b', e)" and ok: "\<forall>f \<in> set (flows b). 2 \<le> length f"
  shows "\<forall>f \<in> set (flows b'). 2 \<le> length f"
proof (cases e)
  case (Some err)
  with assms(1) have "b' = b"
    by (auto simp: ColorCell_def Let_def split: if_splits sum.splits)
  with ok show ?thesis by simp
next
  case None
  let ?f = "flows b ! nat k"
  from assms(1) None
  have fl: "flows b' = (flows b)[nat k := butlast ?f @ [(r, c), last ?f]]"
    by (auto simp: ColorCell_def Let_def split: if_splits sum.splits)
  show ?thesis
  proof
    fix f assume "f \<in> set (flows b')"
    then have "f \<in> insert (butlast ?f @ [(r, c), last ?f]) (set (flows b))"
      unfolding fl using set_update_subset_insert by fast
    with ok show "2 \<le> length f" by auto
  qed
qed












subsection \<open>Extending a flow\<close>

text \<open>
  C1, as the code has it. For a board, a color index \<open>k\<close> in range whose flow is not
  empty, and a cell \<open>(r, c)\<close> of the grid that holds 0: \<open>ColorCell\<close> succeeds exactly
  when the flow with its last point replaced by \<open>(r, c)\<close> is adjacent from end to end
  per \<open>AreAllAjacent\<close>, that is the spliced sequence without the terminal point it
  keeps; the pair of the new point and the terminal point is not tested. On success the
  cell holds \<open>k + 1\<close> and the flow is the spliced sequence; otherwise the result is the
  adjacency error carrying the tested sequence, and the board is as before.
\<close>

theorem ColorCell_adjacency_before_terminal:
  assumes "0 \<le> k" and "k < int (length (flows b))" and "flows b ! nat k \<noteq> []"
    and "0 \<le> r" and "r < Lines b"
    and "0 \<le> c" and "Cols b = Inr n" and "c < n"
    and "Get b r c = Inr 0"
  shows "ColorCell b k r c =
    (if AreAllAjacent (butlast (flows b ! nat k) @ [(r, c)])
     then Inr (b\<lparr>grid := (grid b)[nat r := (grid b ! nat r)[nat c := k + 1]],
                 flows := (flows b)[nat k :=
                            butlast (flows b ! nat k) @ [(r, c), last (flows b ! nat k)]]\<rparr>,
               None)
     else Inr (b, Some (NotAjacent (butlast (flows b ! nat k) @ [(r, c)]))))"
proof -
  have tk: "take (length (flows b ! nat k))
              (butlast (flows b ! nat k) @ [(r, c), last (flows b ! nat k)])
            = butlast (flows b ! nat k) @ [(r, c)]"
    using assms(3) by (rule take_splice)
  show ?thesis
    using assms tk by (simp add: ColorCell_def Get_def Let_def del: take_append)
qed

theorem ColorCell_adjacency_before_terminal_witness:
  "ColorCell \<lparr>grid = [[1, 0, 0], [0, 0, 0], [0, 0, 1]], flows = [[(0, 0), (2, 2)]]\<rparr> 0 1 0
     = Inr (\<lparr>grid = [[1, 0, 0], [1, 0, 0], [0, 0, 1]], flows = [[(0, 0), (1, 0), (2, 2)]]\<rparr>,
            None)"
proof -
  let ?b = "\<lparr>grid = [[1, 0, 0], [0, 0, 0], [0, 0, 1]], flows = [[(0, 0), (2, 2)]]\<rparr>"
  have h: "(0::int) \<le> 0" "0 < int (length (flows ?b))" "flows ?b ! nat 0 \<noteq> []"
    "(0::int) \<le> 1" "1 < Lines ?b" "(0::int) \<le> 0" "Cols ?b = Inr 3" "(0::int) < 3"
    "Get ?b 1 0 = Inr 0"
    by (simp_all add: Lines_def Cols_def Get_def cell_def)
  show ?thesis
    using ColorCell_adjacency_before_terminal [OF h]
    by (simp add: AreAjacent_def wrap64_def)
qed

text \<open>
  C1 as the claim words it fails: on the 3 by 3 board with the flow from \<open>(0, 0)\<close> to
  \<open>(2, 2)\<close>, colouring \<open>(0, 1)\<close> succeeds although the spliced sequence
  \<open>(0, 0), (0, 1), (2, 2)\<close> is not adjacent from end to end.
\<close>

theorem ColorCell_spliced_sequence_counterexample:
  "\<exists>b b'. New ''3,3\<newline>0,0 2,2\<newline>'' = Inr (b, None)
     \<and> ColorCell b 0 0 1 = Inr (b', None)
     \<and> \<not> AreAllAjacent (butlast (flows b ! 0) @ [(0, 1), last (flows b ! 0)])"
proof -
  let ?b = "\<lparr>grid = [[1, 0, 0], [0, 0, 0], [0, 0, 1]], flows = [[(0, 0), (2, 2)]]\<rparr>"
  let ?b' = "\<lparr>grid = [[1, 1, 0], [0, 0, 0], [0, 0, 1]], flows = [[(0, 0), (0, 1), (2, 2)]]\<rparr>"
  have "New ''3,3\<newline>0,0 2,2\<newline>'' = Inr (?b, None)"
    by code_simp
  moreover have "ColorCell ?b 0 0 1 = Inr (?b', None)"
    by code_simp
  moreover have "\<not> AreAllAjacent (butlast (flows ?b ! 0) @ [(0, 1), last (flows ?b ! 0)])"
    by (simp add: AreAjacent_def wrap64_def)
  ultimately show ?thesis by blast
qed

text \<open>
  C8. Whenever \<open>ColorCell\<close> returns an error, whichever of the five it is, the board
  it leaves (grid and flow list) is the board it was given.
\<close>

theorem ColorCell_error_leaves_board:
  "ColorCell b k r c = Inr (b', Some e) \<Longrightarrow> b' = b"
  by (auto simp: ColorCell_def Let_def split: if_splits sum.splits)

theorem ColorCell_error_leaves_board_witness:
  "ColorCell \<lparr>grid = [[1, 0, 0], [0, 0, 0], [0, 0, 1]], flows = [[(0, 0), (2, 2)]]\<rparr> 0 1 1
     = Inr (\<lparr>grid = [[1, 0, 0], [0, 0, 0], [0, 0, 1]], flows = [[(0, 0), (2, 2)]]\<rparr>,
            Some (NotAjacent [(0, 0), (1, 1)]))"
proof -
  let ?b = "\<lparr>grid = [[1, 0, 0], [0, 0, 0], [0, 0, 1]], flows = [[(0, 0), (2, 2)]]\<rparr>"
  obtain b' where h: "ColorCell ?b 0 1 1 = Inr (b', Some (NotAjacent [(0, 0), (1, 1)]))"
    by (simp add: ColorCell_def Lines_def Cols_def cell_def AreAjacent_def wrap64_def)
  from ColorCell_error_leaves_board [OF h] h show ?thesis by simp
qed

text \<open>
  C9. After a successful \<open>ColorCell k r c\<close> the last point of flow \<open>k\<close> is the one
  it had before, the flow is longer by exactly one point, and the new point is the one
  before the last: the flow is the old one with \<open>(r, c)\<close> put before its last point.
\<close>

theorem ColorCell_keeps_last_point:
  "ColorCell b k r c = Inr (b', None) \<Longrightarrow>
     last (flows b' ! nat k) = last (flows b ! nat k) \<and>
     length (flows b' ! nat k) = length (flows b ! nat k) + 1 \<and>
     flows b' ! nat k ! (length (flows b ! nat k) - 1) = (r, c) \<and>
     flows b' ! nat k = butlast (flows b ! nat k) @ [(r, c), last (flows b ! nat k)]"
  by (auto simp: ColorCell_def Let_def nth_append split: if_splits sum.splits)

theorem ColorCell_keeps_last_point_witness:
  "ColorCell \<lparr>grid = [[1, 0, 0], [0, 0, 0], [0, 0, 1]], flows = [[(0, 0), (2, 2)]]\<rparr> 0 0 1
     = Inr (\<lparr>grid = [[1, 1, 0], [0, 0, 0], [0, 0, 1]], flows = [[(0, 0), (0, 1), (2, 2)]]\<rparr>,
            None)
   \<and> last (flows \<lparr>grid = [[1, 1, 0], [0, 0, 0], [0, 0, 1]],
                   flows = [[(0, 0), (0, 1), (2, 2)]]\<rparr> ! nat 0)
       = last (flows \<lparr>grid = [[1, 0, 0], [0, 0, 0], [0, 0, 1]],
                       flows = [[(0, 0), (2, 2)]]\<rparr> ! nat 0)
   \<and> length (flows \<lparr>grid = [[1, 1, 0], [0, 0, 0], [0, 0, 1]],
                     flows = [[(0, 0), (0, 1), (2, 2)]]\<rparr> ! nat 0)
       = length (flows \<lparr>grid = [[1, 0, 0], [0, 0, 0], [0, 0, 1]],
                         flows = [[(0, 0), (2, 2)]]\<rparr> ! nat 0) + 1"
proof -
  let ?b = "\<lparr>grid = [[1, 0, 0], [0, 0, 0], [0, 0, 1]], flows = [[(0, 0), (2, 2)]]\<rparr>"
  let ?b' = "\<lparr>grid = [[1, 1, 0], [0, 0, 0], [0, 0, 1]], flows = [[(0, 0), (0, 1), (2, 2)]]\<rparr>"
  have h: "ColorCell ?b 0 0 1 = Inr (?b', None)"
    by code_simp
  from ColorCell_keeps_last_point [OF h]
  have "last (flows ?b' ! nat 0) = last (flows ?b ! nat 0)"
    and "length (flows ?b' ! nat 0) = length (flows ?b ! nat 0) + 1"
    by blast+
  with h show ?thesis by blast
qed

subsection \<open>Reading a level\<close>

text \<open>
  C6. Reading \<open>2,2\<close>, \<open>0,0 1,1\<close>, \<open>0,1 1,0\<close> (each line ended by a newline) gives a
  board of two lines and two columns with exactly two flows; the four cells hold 1, 1, 2
  and 2, so every cell is occupied; neither flow is adjacent from end to end, and
  \<open>Solved\<close> is false.
\<close>

theorem New_two_by_two:
  "\<exists>b. New ''2,2\<newline>0,0 1,1\<newline>0,1 1,0\<newline>'' = Inr (b, None)
     \<and> Lines b = 2 \<and> Cols b = Inr 2 \<and> length (flows b) = 2
     \<and> Get b 0 0 = Inr 1 \<and> Get b 1 1 = Inr 1 \<and> Get b 0 1 = Inr 2 \<and> Get b 1 0 = Inr 2
     \<and> \<not> AreAllAjacent (flows b ! 0) \<and> \<not> AreAllAjacent (flows b ! 1)
     \<and> Solved b = Inr False"
proof -
  let ?b = "\<lparr>grid = [[1, 2], [2, 1]], flows = [[(0, 0), (1, 1)], [(0, 1), (1, 0)]]\<rparr>"
  have "New ''2,2\<newline>0,0 1,1\<newline>0,1 1,0\<newline>'' = Inr (?b, None)"
    by code_simp
  moreover have "Lines ?b = 2" "Cols ?b = Inr 2" "length (flows ?b) = 2"
    by (simp_all add: Lines_def Cols_def)
  moreover have "Get ?b 0 0 = Inr 1" "Get ?b 1 1 = Inr 1" "Get ?b 0 1 = Inr 2" "Get ?b 1 0 = Inr 2"
    by (simp_all add: Get_def cell_def)
  moreover have "\<not> AreAllAjacent (flows ?b ! 0)" "\<not> AreAllAjacent (flows ?b ! 1)"
    by (simp_all add: AreAjacent_def wrap64_def)
  moreover have "Solved ?b = Inr False"
    by code_simp
  ultimately show ?thesis by blast
qed

text \<open>
  C2, where the code departs from it. With the header \<open>2,3\<close> the allocation loop
  indexes row 2 of a grid of two rows and \<open>New\<close> panics; with the header \<open>3,2\<close> the
  third row is never allocated and stays empty.
\<close>

theorem New_grid_not_rectangular:
  "New ''2,3\<newline>'' = Inl IndexOutOfRange
   \<and> New ''3,2\<newline>'' = Inr (\<lparr>grid = [[0, 0], [0, 0], []], flows = []\<rparr>, None)"
  by code_simp

text \<open>
  C3, where the code departs from it. On a board of two lines and two columns the row
  coordinate 2 passes the bounds test and the store into the grid panics; and a line
  whose second point is out of bounds has written its first point to the grid before
  the format error is returned.
\<close>

theorem insertPoints_bound_is_inclusive:
  "New ''2,2\<newline>2,0 0,0\<newline>'' = Inl IndexOutOfRange
   \<and> insertPoints \<lparr>grid = [[0, 0], [0, 0]], flows = []\<rparr> ''2,0 0,0\<newline>'' 1
       = Inl IndexOutOfRange
   \<and> insertPoints \<lparr>grid = [[0, 0], [0, 0]], flows = []\<rparr> ''0,0 5,5\<newline>'' 1
       = Inr (\<lparr>grid = [[1, 0], [0, 0]], flows = []\<rparr>, Some PointsFormatError)"
  by code_simp

text \<open>
  C4, where the code departs from it. The flow line \<open>0,0\<close> has one point token:
  \<open>insertPoints\<close> returns the format error, and \<open>New\<close> returns the board with no
  error.
\<close>

theorem New_drops_format_error:
  "insertPoints \<lparr>grid = [[0, 0], [0, 0]], flows = []\<rparr> ''0,0\<newline>'' 1
       = Inr (\<lparr>grid = [[0, 0], [0, 0]], flows = []\<rparr>, Some PointsFormatError)
   \<and> New ''2,2\<newline>0,0\<newline>'' = Inr (\<lparr>grid = [[0, 0], [0, 0]], flows = []\<rparr>, None)"
  by code_simp

subsection \<open>The solved test\<close>

text \<open>
  On a board whose grid is rectangular, as the data model has it, the result of \<open>Solved\<close>
  is the truth value of: every cell of the grid holds a non-zero value and every flow of
  the flow list satisfies \<open>AreAllAjacent\<close>.
\<close>

lemma Solved_rectangular:
  assumes "rectangular (grid b)"
  shows "Solved b = Inr ((\<forall>row \<in> set (grid b). \<forall>v \<in> set row. v \<noteq> 0)
                        \<and> (\<forall>c \<in> set (flows b). AreAllAjacent c))"
proof -
  have "\<forall>i \<in> set [0 ..< length (grid b)]. length (grid b ! i) = length (grid b ! 0)"
    using assms by (simp add: rectangular_def list_all_length)
  then have "Solved_grid (grid b) [0 ..< length (grid b)]
      = Inr (\<forall>i \<in> set [0 ..< length (grid b)]. \<forall>v \<in> set (grid b ! i). v \<noteq> 0)"
    by (rule Solved_grid_full)
  also have "(\<forall>i \<in> set [0 ..< length (grid b)]. \<forall>v \<in> set (grid b ! i). v \<noteq> 0)
      = (\<forall>row \<in> set (grid b). \<forall>v \<in> set row. v \<noteq> 0)"
    unfolding all_set_conv_all_nth [of "grid b"] by (simp add: Ball_def [of "{0 ..< length (grid b)}"])
  finally have g: "Solved_grid (grid b) [0 ..< length (grid b)]
      = Inr (\<forall>row \<in> set (grid b). \<forall>v \<in> set row. v \<noteq> 0)" .
  show ?thesis
    unfolding Solved_def g Solved_flows_all by auto
qed

text \<open>
  C7, where the code departs from it. \<open>New\<close> on the header \<open>3,2\<close> leaves the third row
  of the grid empty (the allocation loop of C2), and the two flow lines fill the four
  cells there are with adjacent flows. Every cell of this board holds a non-zero value
  and every flow satisfies \<open>AreAllAjacent\<close>, yet \<open>Solved\<close> does not return true: it
  reads \<open>b.grid[2][0]\<close>, a cell the third row does not have, and panics.
\<close>

theorem Solved_panics_on_ragged_grid:
  "\<exists>b. New ''3,2\<newline>0,0 0,1\<newline>1,0 1,1\<newline>'' = Inr (b, None)
     \<and> grid b = [[1, 1], [2, 2], []]
     \<and> flows b = [[(0, 0), (0, 1)], [(1, 0), (1, 1)]]
     \<and> list_all (\<lambda>row. list_all (\<lambda>v. v \<noteq> 0) row) (grid b)
     \<and> list_all AreAllAjacent (flows b)
     \<and> Solved b = Inl IndexOutOfRange"
proof -
  let ?b = "\<lparr>grid = [[1, 1], [2, 2], []], flows = [[(0, 0), (0, 1)], [(1, 0), (1, 1)]]\<rparr>"
  have "New ''3,2\<newline>0,0 0,1\<newline>1,0 1,1\<newline>'' = Inr (?b, None)"
    by code_simp
  moreover have "list_all (\<lambda>row. list_all (\<lambda>v. v \<noteq> 0) row) (grid ?b)"
    by simp
  moreover have "list_all AreAllAjacent (flows ?b)"
    by (simp add: AreAjacent_def wrap64_def)
  moreover have "Solved ?b = Inl IndexOutOfRange"
    by code_simp
  ultimately show ?thesis by simp
qed

subsection \<open>The flows of a board\<close>

text \<open>
  C10. Every flow of a board built by \<open>New\<close> and extended by \<open>ColorCell\<close> has at least
  two points, so \<open>ColorCell\<close> never reaches the panic of \<open>c[:len(c)-1]\<close> on an empty
  flow.
\<close>

theorem built_flows_two_points:
  assumes "built b"
  shows "(\<forall>f \<in> set (flows b). 2 \<le> length f)
         \<and> (\<forall>k r c. ColorCell b k r c \<noteq> Inl SliceBoundsOutOfRange)"
proof -
  from assms have ok: "\<forall>f \<in> set (flows b). 2 \<le> length f"
  proof (induction rule: built.induct)
    case (built_New input b e)
    then show ?case by (rule New_flows)
  next
    case (built_ColorCell b k r c b' e)
    from built_ColorCell.hyps(2) built_ColorCell.IH show ?case by (rule ColorCell_flows)
  qed
  have "ColorCell b k r c \<noteq> Inl SliceBoundsOutOfRange" for k r c
  proof
    assume "ColorCell b k r c = Inl SliceBoundsOutOfRange"
    then have k: "0 \<le> k" "k < int (length (flows b))" and e: "flows b ! nat k = []"
      by (auto simp: ColorCell_def Let_def Cols_def cell_def split: if_splits sum.splits)
    from k have "nat k < length (flows b)" by simp
    then have "flows b ! nat k \<in> set (flows b)" by (rule nth_mem)
    with ok have "2 \<le> length (flows b ! nat k)" by blast
    with e show False by simp
  qed
  with ok show ?thesis by blast
qed

theorem built_flows_two_points_witness:
  "2 \<le> length (flows \<lparr>grid = [[1, 0, 0], [0, 0, 0], [0, 0, 1]], flows = [[(0, 0), (2, 2)]]\<rparr> ! 0)
   \<and> ColorCell \<lparr>grid = [[1, 0, 0], [0, 0, 0], [0, 0, 1]], flows = [[(0, 0), (2, 2)]]\<rparr> 0 0 1
       \<noteq> Inl SliceBoundsOutOfRange"
proof -
  let ?b = "\<lparr>grid = [[1, 0, 0], [0, 0, 0], [0, 0, 1]], flows = [[(0, 0), (2, 2)]]\<rparr>"
  have "New ''3,3\<newline>0,0 2,2\<newline>'' = Inr (?b, None)"
    by code_simp
  then have "built ?b"
    by (rule built.built_New)
  from built_flows_two_points [OF this]
  have "\<forall>f \<in> set (flows ?b). 2 \<le> length f"
    and "ColorCell ?b 0 0 1 \<noteq> Inl SliceBoundsOutOfRange"
    by blast+
  then show ?thesis by simp
qed

subsection \<open>Blank lines\<close>



end
